theory Spec2Isabelle
  imports Complex_Main "HOL-Library.Sublist"
begin

section \<open>Curve data (types used by CurveAdjustment.tsx and App.tsx)\<close>

text \<open>
  A control point is \<^verbatim>\<open>{x, y}\<close>.  Every point the editor creates has coordinates produced by
  \<^verbatim>\<open>Math.round\<close>, so they are integers.  The fields are named \<open>pt_x\<close> and \<open>pt_y\<close>
  (a record field \<open>x\<close> would capture the variable name).
\<close>

record point =
  pt_x :: int
  pt_y :: int

text \<open>\<^verbatim>\<open>CurveSettings\<close>: one array of points per channel, keys in the order
  \<^verbatim>\<open>all, red, green, blue\<close> (\<^verbatim>\<open>DEFAULT_CURVES\<close>); the object spread
  \<^verbatim>\<open>{ ...settings, [activeChannel]: pts }\<close> keeps that order.\<close>

record curve_settings =
  ch_all :: "point list"
  ch_red :: "point list"
  ch_green :: "point list"
  ch_blue :: "point list"

datatype channel = All | Red | Green | Blue



definition identity_curve :: "point list" where
  "identity_curve = [\<lparr>pt_x = 0, pt_y = 0\<rparr>, \<lparr>pt_x = 255, pt_y = 255\<rparr>]"

definition DEFAULT_CURVES :: curve_settings where
  "DEFAULT_CURVES = \<lparr>ch_all = identity_curve, ch_red = identity_curve,
                      ch_green = identity_curve, ch_blue = identity_curve\<rparr>"


section \<open>CurveAdjustment.tsx: component state and the edit history\<close>

text \<open>
  The state of the component: the prop \<^verbatim>\<open>settings\<close> (owned by the parent, replaced by
  \<^verbatim>\<open>onChange\<close>) and the \<^verbatim>\<open>useState\<close> cells.  \<^verbatim>\<open>historyIndex\<close> starts at \<open>-1\<close>, so it is
  an \<open>int\<close>.
\<close>

record editor =
  settings :: curve_settings
  activeChannel :: channel
  hoveredPoint :: "nat option"
  draggingPoint :: "nat option"
  history :: "curve_settings list"
  historyIndex :: int


text \<open>\<^verbatim>\<open>arr[i]\<close> on a JS array: \<^verbatim>\<open>undefined\<close> (here \<open>None\<close>) outside \<open>0 .. length - 1\<close>.\<close>

definition js_index :: "'a list \<Rightarrow> int \<Rightarrow> 'a option" where
  "js_index xs i = (if 0 \<le> i \<and> i < int (length xs) then Some (xs ! nat i) else None)"

text \<open>\<^verbatim>\<open>arr.slice(0, e)\<close>: a negative end counts from the back, a large one is cut to the
  length.\<close>

definition js_slice0 :: "'a list \<Rightarrow> int \<Rightarrow> 'a list" where
  "js_slice0 xs e =
     (let len = int (length xs);
          final = (if e < 0 then max (len + e) 0 else min e len)
      in take (nat final) xs)"

text \<open>
  \<^verbatim>\<open>addToHistory\<close> (lines 33-46).  \<^verbatim>\<open>JSON.stringify(current) === JSON.stringify(newSettings)\<close>
  compares the serialisations; with the fixed key order and integer coordinates that is
  equality of the values, and \<^verbatim>\<open>JSON.stringify(undefined)\<close> is \<^verbatim>\<open>undefined\<close>, which equals no
  string.  \<^verbatim>\<open>JSON.parse(JSON.stringify(v))\<close> is a deep copy: the same value.
\<close>

definition addToHistory :: "curve_settings \<Rightarrow> editor \<Rightarrow> editor" where
  "addToHistory newSettings ed =
     (let current = js_index (history ed) (historyIndex ed) in
      if current = Some newSettings then ed
      else
        let pushed = js_slice0 (history ed) (historyIndex ed + 1) @ [newSettings];
            newHistory = (if length pushed > 50 then tl pushed else pushed)
        in ed\<lparr>history := newHistory, historyIndex := int (length newHistory) - 1\<rparr>)"




text \<open>A sequence of commits, oldest first.\<close>

definition commits :: "editor \<Rightarrow> curve_settings list \<Rightarrow> editor" where
  "commits ed ss = foldl (\<lambda>e s. addToHistory s e) ed ss"

text \<open>
  The history states the component can be in: before the mount effect the stack is empty
  with index \<open>-1\<close>; afterwards the index points at an entry.  The stack holds at most 50
  entries.
\<close>

definition history_ok :: "editor \<Rightarrow> bool" where
  "history_ok ed \<longleftrightarrow>
     length (history ed) \<le> 50 \<and>
     ((history ed = [] \<and> historyIndex ed = -1) \<or>
      (0 \<le> historyIndex ed \<and> historyIndex ed < int (length (history ed))))"

text \<open>The component state at mount: no history yet.\<close>

definition fresh_editor :: "curve_settings \<Rightarrow> editor" where
  "fresh_editor s =
     \<lparr>settings = s, activeChannel = All, hoveredPoint = None, draggingPoint = None,
      history = [], historyIndex = -1\<rparr>"



subsection \<open>Sample histories\<close>

text \<open>Sixty pairwise different settings (the first point of the \<^verbatim>\<open>all\<close> curve has
  \<open>y = 0, 1, \<dots>, 59\<close>), used as a concrete run of commits.\<close>

definition sample_settings :: "int \<Rightarrow> curve_settings" where
  "sample_settings n = DEFAULT_CURVES\<lparr>ch_all := [\<lparr>pt_x = 0, pt_y = n\<rparr>, \<lparr>pt_x = 255, pt_y = 255\<rparr>]\<rparr>"

definition sample_commits :: "curve_settings list" where
  "sample_commits = map (\<lambda>n. sample_settings (int n)) [0..<60]"


section \<open>CurveAdjustment.tsx: editing the control points\<close>








text \<open>\<^verbatim>\<open>handleGlobalUp\<close> (lines 114-119): one commit per drag gesture.\<close>

definition handleGlobalUp :: "editor \<Rightarrow> editor" where
  "handleGlobalUp ed =
     (let ed' = (if draggingPoint ed \<noteq> None then addToHistory (settings ed) ed else ed)
      in ed'\<lparr>draggingPoint := None\<rparr>)"






subsection \<open>Sample editors\<close>





section \<open>services/geminiService.ts: the AI compositor call and its retry policy\<close>

text \<open>The enumerations of \<^verbatim>\<open>types.ts\<close>, by the member names the sources use.\<close>

datatype BackgroundColor = WHITE | BLUE | ORIGINAL

datatype ClothingOption = NONE | MALE_BLAZER | FEMALE_BLAZER | MALE_SHIRT | FEMALE_SHIRT

definition MAX_RETRIES :: nat where
  "MAX_RETRIES = 3"

definition INITIAL_DELAY :: nat where
  "INITIAL_DELAY = 2000"

text \<open>
  What one call of \<^verbatim>\<open>processBackground\<close> sends: the image and the two selectors (the
  cleaned base64 data and the prompt text are functions of these and are the same in
  every retry).
\<close>

record request =
  imageBase64 :: string
  color :: BackgroundColor
  clothing :: ClothingOption

text \<open>
  What \<^verbatim>\<open>await ai.models.generateContent(...)\<close> can do: reject with an error whose
  \<^verbatim>\<open>message\<close> may be missing, or resolve with a response whose \<^verbatim>\<open>candidates\<close> may be
  missing; a candidate is the list of its parts, a part is its \<^verbatim>\<open>inlineData.data\<close> when it
  has one.
\<close>

datatype api_result =
    Rejected "string option"
  | Response "string option list list option"

text \<open>
  The outside world as the service sees it: the number of requests sent so far, the
  durations slept so far (in ms, oldest first), and the photos handed to the sheet
  compositor so far.  The remote model is a function from the request and the number of
  earlier requests to the result of this one.
\<close>

record world =
  calls :: nat
  sleeps :: "nat list"
  sheet_inputs :: "string list"

type_synonym gemini = "request \<Rightarrow> nat \<Rightarrow> api_result"

text \<open>\<^verbatim>\<open>s.includes(sub)\<close>\<close>

fun js_includes :: "string \<Rightarrow> string \<Rightarrow> bool" where
  "js_includes [] sub = (sub = [])"
| "js_includes (c # cs) sub = (prefix sub (c # cs) \<or> js_includes cs sub)"

text \<open>\<^verbatim>\<open>message || fallback\<close>: a missing or empty message is falsy.\<close>

definition or_else :: "string option \<Rightarrow> string \<Rightarrow> string" where
  "or_else message fallback =
     (case message of None \<Rightarrow> fallback | Some m \<Rightarrow> if m = [] then fallback else m)"

text \<open>The loop over \<^verbatim>\<open>candidates[0].content.parts\<close>: the first part with non-empty data.\<close>

fun first_image :: "string option list \<Rightarrow> string option" where
  "first_image [] = None"
| "first_image (None # ps) = first_image ps"
| "first_image (Some d # ps) = (if d \<noteq> [] then Some d else first_image ps)"

text \<open>
  The body of the \<^verbatim>\<open>try\<close> block (lines 60-87), given the result of the request: the
  data URI of the image, or the \<^verbatim>\<open>message\<close> of what is thrown into the \<^verbatim>\<open>catch\<close> clause.
\<close>

definition try_generate :: "api_result \<Rightarrow> string option + string" where
  "try_generate r =
     (case r of
        Rejected message \<Rightarrow> Inl message
      | Response candidates \<Rightarrow>
          (case candidates of
             Some (parts # rest) \<Rightarrow>
               (case first_image parts of
                  Some d \<Rightarrow> Inr (''data:image/png;base64,'' @ d)
                | None \<Rightarrow> Inl (Some ''The AI returned a response but no image was found.''))
           | _ \<Rightarrow> Inl (Some ''The AI returned a response but no image was found.'')))"

text \<open>\<^verbatim>\<open>error.message?.includes("429")\<close>\<close>

definition rate_limit_signal :: "string option \<Rightarrow> bool" where
  "rate_limit_signal message = (case message of None \<Rightarrow> False | Some m \<Rightarrow> js_includes m ''429'')"

text \<open>
  \<^verbatim>\<open>processBackground\<close> (lines 9-99).  The result is \<open>Inr\<close> the data URI returned or
  \<open>Inl\<close> the message of the \<^verbatim>\<open>Error\<close> thrown, with the world after the call.  The recursion
  is the source's own; it ends because \<^verbatim>\<open>retryCount\<close> grows towards \<^verbatim>\<open>MAX_RETRIES\<close>.
\<close>

function processBackground :: "gemini \<Rightarrow> request \<Rightarrow> nat \<Rightarrow> world \<Rightarrow> (string + string) \<times> world" where
  "processBackground ai req retryCount w =
     (let w1 = w\<lparr>calls := calls w + 1\<rparr> in
      case try_generate (ai req (calls w)) of
        Inr img \<Rightarrow> (Inr img, w1)
      | Inl message \<Rightarrow>
          if rate_limit_signal message \<and> retryCount < MAX_RETRIES then
            let delay = INITIAL_DELAY * 2 ^ retryCount;
                w2 = w1\<lparr>sleeps := sleeps w1 @ [delay]\<rparr>
            in processBackground ai req (retryCount + 1) w2
          else (Inl (or_else message ''An unexpected error occurred during AI processing.''), w1))"
  by pat_completeness auto
termination
  by (relation "measure (\<lambda>(ai, req, retryCount, w). MAX_RETRIES - retryCount)") auto

declare processBackground.simps [simp del]

text \<open>A request is a rate-limit failure: it throws, and the message carries the signal.\<close>

definition rate_limited :: "api_result \<Rightarrow> bool" where
  "rate_limited r \<longleftrightarrow> (\<exists>message. try_generate r = Inl message \<and> rate_limit_signal message)"

text \<open>The waits before the first \<open>k\<close> retries.\<close>

definition backoff :: "nat \<Rightarrow> nat list" where
  "backoff k = map (\<lambda>i. INITIAL_DELAY * 2 ^ i) [0..<k]"


section \<open>App.tsx: the Generate pipeline\<close>

datatype AppState = UPLOAD | CROP | PROCESS | PREVIEW

text \<open>The \<^verbatim>\<open>useState\<close> cells of \<^verbatim>\<open>App\<close> that the pipeline and the live preview read or
  write.\<close>

record app =
  isAuthenticated :: bool
  state :: AppState
  croppedImage :: "string option"
  gradedPreview :: "string option"
  processedImage :: "string option"
  finalSheet :: "string option"
  selectedColor :: BackgroundColor
  selectedClothing :: ClothingOption
  curveSettings :: curve_settings
  isProcessing :: bool
  error :: "string option"

text \<open>
  \<^verbatim>\<open>applyCurves\<close> and \<^verbatim>\<open>generatePassportSheet\<close> belong to \<^verbatim>\<open>utils/canvasUtils\<close>, which is
  not among the sources: they are parameters.  Each is an awaited call that resolves with a
  data URI or rejects with a value whose \<^verbatim>\<open>message\<close> may be missing.  The call site is an
  argument, so that the call in the \<^verbatim>\<open>try\<close> block and the one in the fallback may end
  differently.
\<close>

datatype call_site = Generate | Fallback | LivePreview

record env =
  applyCurves :: "call_site \<Rightarrow> string \<Rightarrow> curve_settings \<Rightarrow> string option + string"
  generatePassportSheet :: "call_site \<Rightarrow> string \<Rightarrow> string option + string"
  generateContent :: gemini

text \<open>\<^verbatim>\<open>await generatePassportSheet(photo)\<close>, recording the photo it was given.\<close>

definition make_sheet :: "env \<Rightarrow> call_site \<Rightarrow> string \<Rightarrow> world \<Rightarrow> (string option + string) \<times> world" where
  "make_sheet env site photo w =
     (generatePassportSheet env site photo, w\<lparr>sheet_inputs := sheet_inputs w @ [photo]\<rparr>)"

text \<open>
  The \<^verbatim>\<open>try\<close> block of \<^verbatim>\<open>handleProcess\<close> (lines 125-137): \<open>Inr\<close> the state when it
  completes, \<open>Inl\<close> the \<^verbatim>\<open>message\<close> of what it throws with the state reached by then
  (\<^verbatim>\<open>setProcessedImage\<close> comes before the sheet is generated).
\<close>

definition generate_try :: "env \<Rightarrow> string \<Rightarrow> app \<Rightarrow> world \<Rightarrow> (string option \<times> app + app) \<times> world" where
  "generate_try env cropped a w =
     (case applyCurves env Generate cropped (curveSettings a) of
        Inl err \<Rightarrow> (Inl (err, a), w)
      | Inr enhancedImage \<Rightarrow>
          let needsAI = (selectedColor a \<noteq> ORIGINAL \<or> selectedClothing a \<noteq> NONE);
              (finalPhoto, w1) =
                (if needsAI then
                   processBackground (generateContent env)
                     \<lparr>imageBase64 = enhancedImage, color = selectedColor a,
                      clothing = selectedClothing a\<rparr> 0 w
                 else (Inr enhancedImage, w))
          in case finalPhoto of
               Inl message \<Rightarrow> (Inl (Some message, a), w1)
             | Inr photo \<Rightarrow>
                 let a1 = a\<lparr>processedImage := Some photo\<rparr>;
                     (sheet, w2) = make_sheet env Generate photo w1
                 in case sheet of
                      Inl err \<Rightarrow> (Inl (err, a1), w2)
                    | Inr s \<Rightarrow> (Inr (a1\<lparr>finalSheet := Some s, state := PREVIEW\<rparr>), w2))"

text \<open>The \<^verbatim>\<open>catch\<close> clause (lines 138-150) with its inner \<^verbatim>\<open>try\<close>/\<^verbatim>\<open>catch\<close>.\<close>

definition generate_catch :: "env \<Rightarrow> string \<Rightarrow> string option \<Rightarrow> app \<Rightarrow> world \<Rightarrow> app \<times> world" where
  "generate_catch env cropped err a w =
     (let errorMessage = or_else err ''Unknown error'' in
      case applyCurves env Fallback cropped (curveSettings a) of
        Inl innerErr \<Rightarrow> (a\<lparr>error := Some (''Total failure: '' @ errorMessage)\<rparr>, w)
      | Inr fallbackPhoto \<Rightarrow>
          let (sheet, w1) = make_sheet env Fallback fallbackPhoto w
          in case sheet of
               Inl innerErr \<Rightarrow> (a\<lparr>error := Some (''Total failure: '' @ errorMessage)\<rparr>, w1)
             | Inr s \<Rightarrow>
                 (a\<lparr>finalSheet := Some s, processedImage := Some fallbackPhoto, state := PREVIEW,
                    error := Some (''AI enhancement failed: '' @ errorMessage @ ''. Colored photo used.'')\<rparr>,
                  w1))"

text \<open>
  \<^verbatim>\<open>handleProcess\<close> (lines 120-154).  \<^verbatim>\<open>if (!croppedImage) return\<close>: \<^verbatim>\<open>null\<close> and the empty
  string are falsy.
\<close>

definition handleProcess :: "env \<Rightarrow> app \<Rightarrow> world \<Rightarrow> app \<times> world" where
  "handleProcess env a w =
     (case croppedImage a of
        None \<Rightarrow> (a, w)
      | Some cropped \<Rightarrow>
          if cropped = [] then (a, w)
          else
            let a0 = a\<lparr>isProcessing := True, error := None\<rparr>;
                (outcome, w1) = generate_try env cropped a0 w;
                (a2, w2) = (case outcome of
                              Inr a1 \<Rightarrow> (a1, w1)
                            | Inl (err, a1) \<Rightarrow> generate_catch env cropped err a1 w1)
            in (a2\<lparr>isProcessing := False\<rparr>, w2))"

subsection \<open>Sample remote models, canvas libraries and application states\<close>

text \<open>A remote model that is rate-limited for the first \<open>n\<close> requests and then returns an
  image, and one that then fails for another reason.\<close>

definition limited_then_image :: "nat \<Rightarrow> gemini" where
  "limited_then_image n = (\<lambda>req i. if i < n then Rejected (Some ''429 Too Many Requests'')
                                     else Response (Some [[None, Some ''QUJD'']]))"

definition limited_then_down :: "nat \<Rightarrow> gemini" where
  "limited_then_down n = (\<lambda>req i. if i < n then Rejected (Some ''429 Too Many Requests'')
                                    else Rejected (Some ''503 Service Unavailable''))"

definition new_world :: world where
  "new_world = \<lparr>calls = 0, sleeps = [], sheet_inputs = []\<rparr>"

definition sample_request :: request where
  "sample_request = \<lparr>imageBase64 = ''data:image/png;base64,AAAA'', color = WHITE, clothing = NONE\<rparr>"

text \<open>The error message shown begins with the given words.\<close>

definition error_begins :: "string \<Rightarrow> app \<Rightarrow> bool" where
  "error_begins p a = (case error a of None \<Rightarrow> False | Some m \<Rightarrow> prefix p m)"

text \<open>A canvas library that grades and composes without failing, one whose sheet
  composition always fails, and an application state ready for Generate.\<close>

definition sample_env :: "gemini \<Rightarrow> env" where
  "sample_env ai =
     \<lparr>applyCurves = (\<lambda>site img cs. Inr (''graded:'' @ img)),
      generatePassportSheet = (\<lambda>site photo. Inr (''sheet:'' @ photo)),
      generateContent = ai\<rparr>"

definition broken_sheet_env :: "gemini \<Rightarrow> env" where
  "broken_sheet_env ai =
     \<lparr>applyCurves = (\<lambda>site img cs. Inr (''graded:'' @ img)),
      generatePassportSheet = (\<lambda>site photo. Inl (Some ''canvas is gone'')),
      generateContent = ai\<rparr>"

definition sample_app :: "BackgroundColor \<Rightarrow> ClothingOption \<Rightarrow> app" where
  "sample_app c cl =
     \<lparr>isAuthenticated = True, state = PROCESS, croppedImage = Some ''crop'',
      gradedPreview = Some ''crop'', processedImage = None, finalSheet = None,
      selectedColor = c, selectedClothing = cl, curveSettings = DEFAULT_CURVES,
      isProcessing = False, error = None\<rparr>"


section \<open>App.tsx: the debounced live preview\<close>












subsection \<open>Sample runs of the live preview, and its invariant\<close>







section \<open>components/Cropper.tsx\<close>

text \<open>
  A JS number.  The geometry below is computed on finite values and is modelled on
  \<open>real\<close> (exact arithmetic for the doubles of the source); the rotation is the one cell
  written from \<^verbatim>\<open>parseFloat\<close>, which can also yield \<^verbatim>\<open>NaN\<close> and the infinities.
\<close>

datatype js_number = Finite real | PosInfinity | NegInfinity | NaN

text \<open>The \<^verbatim>\<open>useState\<close> cells of \<^verbatim>\<open>Cropper\<close>; \<open>position\<close> is the pair \<open>{x, y}\<close>.\<close>

record cropper =
  zoom :: real
  rotation :: js_number
  position :: "real \<times> real"
  isDragging :: bool

text \<open>The initial values of the cells.\<close>

definition initial_cropper :: cropper where
  "initial_cropper = \<lparr>zoom = 1, rotation = Finite 0, position = (0, 0), isDragging = False\<rparr>"

definition ASPECT_RATIO :: real where
  "ASPECT_RATIO = 35 / 45"

definition CROP_BOX_HEIGHT :: real where
  "CROP_BOX_HEIGHT = 420"

definition CROP_BOX_WIDTH :: real where
  "CROP_BOX_WIDTH = CROP_BOX_HEIGHT * ASPECT_RATIO"

text \<open>What the component reads from the image element and from the container.\<close>

record html_image =
  naturalWidth :: real
  naturalHeight :: real

record container =
  clientWidth :: real
  clientHeight :: real

text \<open>
  \<^verbatim>\<open>setupAutoCrop\<close> (lines 496-507), run when the image is complete or fires its load
  event.  The model is that of a loaded image, with positive natural dimensions (a
  division by 0 is \<^verbatim>\<open>Infinity\<close> in JS and 0 in HOL).
\<close>

definition setupAutoCrop :: "html_image \<Rightarrow> cropper \<Rightarrow> cropper" where
  "setupAutoCrop img c =
     (let widthZoom = (CROP_BOX_WIDTH / naturalWidth img) * 2.8;
          heightZoom = (CROP_BOX_HEIGHT / naturalHeight img) * 1.5;
          finalZoom = max widthZoom heightZoom;
          finalZoom = min finalZoom 4.0;
          renderedHeight = naturalHeight img * finalZoom;
          initialY = - (renderedHeight * 0.18)
      in c\<lparr>zoom := finalZoom, position := (0, initialY)\<rparr>)"

text \<open>The effect of lines 492-514 once the image has loaded: nothing without the two
  refs.\<close>

definition autoCropEffect :: "html_image option \<Rightarrow> container option \<Rightarrow> cropper \<Rightarrow> cropper" where
  "autoCropEffect imageRef containerRef c =
     (case imageRef of
        None \<Rightarrow> c
      | Some img \<Rightarrow> (case containerRef of None \<Rightarrow> c | Some cont \<Rightarrow> setupAutoCrop img c))"












subsection \<open>Sample cropper\<close>



section \<open>The edit history (addToHistory, undo, redo)\<close>

lemma js_index_Some_iff:
  "js_index xs i = Some v \<longleftrightarrow> 0 \<le> i \<and> i < int (length xs) \<and> xs ! nat i = v"
  by (auto simp: js_index_def)

lemma js_slice0_take:
  "-1 \<le> i \<Longrightarrow> js_slice0 xs (i + 1) = take (nat (i + 1)) xs"
  by (auto simp: js_slice0_def Let_def min_def)

lemma addToHistory_same:
  "js_index (history ed) (historyIndex ed) = Some s \<Longrightarrow> addToHistory s ed = ed"
  by (simp add: addToHistory_def)

lemma addToHistory_new:
  assumes "js_index (history ed) (historyIndex ed) \<noteq> Some s" and "-1 \<le> historyIndex ed"
  shows "history (addToHistory s ed) =
           (let pushed = take (nat (historyIndex ed + 1)) (history ed) @ [s]
            in if length pushed > 50 then tl pushed else pushed)"
    and "historyIndex (addToHistory s ed) = int (length (history (addToHistory s ed))) - 1"
  using assms by (simp_all add: addToHistory_def Let_def js_slice0_take)

lemma addToHistory_ok:
  assumes "history_ok ed"
  shows "history_ok (addToHistory s ed)"
proof (cases "js_index (history ed) (historyIndex ed) = Some s")
  case True
  then show ?thesis using assms by (simp add: addToHistory_same)
next
  case False
  have i: "-1 \<le> historyIndex ed" using assms by (auto simp: history_ok_def)
  let ?p = "take (nat (historyIndex ed + 1)) (history ed) @ [s]"
  have len: "length ?p \<le> 51" using assms by (auto simp: history_ok_def)
  show ?thesis
    unfolding history_ok_def addToHistory_new[OF False i]
    using len by (auto simp: Let_def)
qed

lemma commits_snoc: "commits ed (ss @ [s]) = addToHistory s (commits ed ss)"
  by (simp add: commits_def)

lemma commits_distinct:
  assumes "history ed = []" and "historyIndex ed = -1" and "distinct ss"
  shows "history (commits ed ss) = drop (length ss - 50) ss \<and>
         historyIndex (commits ed ss) = int (min (length ss) 50) - 1"
  using assms(3)
proof (induction ss rule: rev_induct)
  case Nil
  then show ?case using assms by (simp add: commits_def)
next
  case (snoc s ss)
  let ?e = "commits ed ss"
  have IH: "history ?e = drop (length ss - 50) ss"
           "historyIndex ?e = int (min (length ss) 50) - 1"
    using snoc by auto
  have len: "length (history ?e) = min (length ss) 50" using IH(1) by auto
  have notin: "s \<notin> set ss" using snoc.prems by simp
  have ne: "js_index (history ?e) (historyIndex ?e) \<noteq> Some s"
  proof
    assume "js_index (history ?e) (historyIndex ?e) = Some s"
    then have "s \<in> set (history ?e)"
      by (auto simp: js_index_Some_iff)
    then have "s \<in> set ss" unfolding IH(1) by (rule in_set_dropD)
    with notin show False by simp
  qed
  have i: "-1 \<le> historyIndex ?e" using IH(2) by simp
  have tk: "take (nat (historyIndex ?e + 1)) (history ?e) = history ?e"
    using IH(2) len by simp
  show ?case
  proof (cases "length ss < 50")
    case True
    then show ?thesis
      unfolding commits_snoc addToHistory_new[OF ne i] tk Let_def
      using IH len by (simp add: min_def)
  next
    case False
    then have ne': "history ?e \<noteq> []" using len by auto
    have arith: "length ss - 49 = Suc (length ss - 50)" using False by simp
    have "tl (history ?e @ [s]) = drop (Suc (length ss - 50)) (ss @ [s])"
      using ne' False unfolding IH(1) by (simp add: drop_Suc tl_drop)
    then show ?thesis
      unfolding commits_snoc addToHistory_new[OF ne i] tk Let_def
      using IH(2) len False arith
      by (simp add: min_def)
  qed
qed

lemma commits_ok: "history_ok ed \<Longrightarrow> history_ok (commits ed ss)"
  by (induction ss rule: rev_induct) (simp_all add: commits_def addToHistory_ok)

text \<open>
  Claim C2.  In every history state the component can be in: committing the settings
  that are already at the current index changes nothing; committing anything else keeps
  the entries up to the current index, appends the new settings (dropping the oldest entry
  when that makes 51) and points the index at the new last entry; whatever sequence of
  commits follows, the stack never holds more than 50 entries; and 60 pairwise different
  commits from the empty history leave exactly the last 50 of them, the first 10 evicted.
\<close>

theorem addToHistory_contract:
  assumes "history_ok ed"
  shows "(js_index (history ed) (historyIndex ed) = Some s \<longrightarrow> addToHistory s ed = ed) \<and>
         (js_index (history ed) (historyIndex ed) \<noteq> Some s \<longrightarrow>
            history (addToHistory s ed) =
              (let pushed = take (nat (historyIndex ed + 1)) (history ed) @ [s]
               in if length pushed > 50 then tl pushed else pushed) \<and>
            historyIndex (addToHistory s ed) = int (length (history (addToHistory s ed))) - 1) \<and>
         length (history (commits ed ss)) \<le> 50 \<and>
         (distinct ts \<and> length ts = 60 \<longrightarrow>
            history (commits (fresh_editor s0) ts) = drop 10 ts \<and>
            length (history (commits (fresh_editor s0) ts)) = 50 \<and>
            historyIndex (commits (fresh_editor s0) ts) = 49)"
proof -
  have i: "-1 \<le> historyIndex ed" using assms by (auto simp: history_ok_def)
  have a: "js_index (history ed) (historyIndex ed) = Some s \<longrightarrow> addToHistory s ed = ed"
    by (simp add: addToHistory_same)
  have b: "js_index (history ed) (historyIndex ed) \<noteq> Some s \<longrightarrow>
            history (addToHistory s ed) =
              (let pushed = take (nat (historyIndex ed + 1)) (history ed) @ [s]
               in if length pushed > 50 then tl pushed else pushed) \<and>
            historyIndex (addToHistory s ed) = int (length (history (addToHistory s ed))) - 1"
    using addToHistory_new[of ed s] i by blast
  have c: "length (history (commits ed ss)) \<le> 50"
    using commits_ok[OF assms, of ss] by (simp add: history_ok_def)
  have d: "distinct ts \<and> length ts = 60 \<longrightarrow>
            history (commits (fresh_editor s0) ts) = drop 10 ts \<and>
            length (history (commits (fresh_editor s0) ts)) = 50 \<and>
            historyIndex (commits (fresh_editor s0) ts) = 49"
  proof
    assume h: "distinct ts \<and> length ts = 60"
    have "history (commits (fresh_editor s0) ts) = drop (length ts - 50) ts \<and>
          historyIndex (commits (fresh_editor s0) ts) = int (min (length ts) 50) - 1"
      by (rule commits_distinct) (simp_all add: fresh_editor_def h)
    then show "history (commits (fresh_editor s0) ts) = drop 10 ts \<and>
            length (history (commits (fresh_editor s0) ts)) = 50 \<and>
            historyIndex (commits (fresh_editor s0) ts) = 49"
      using h by simp
  qed
  from a b c d show ?thesis by blast
qed

lemma sample_commits_distinct: "distinct sample_commits"
proof -
  have "inj_on (\<lambda>n. sample_settings (int n)) (set [0..<60])"
  proof (rule inj_onI)
    fix a b :: nat
    assume "sample_settings (int a) = sample_settings (int b)"
    then have "ch_all (sample_settings (int a)) = ch_all (sample_settings (int b))" by simp
    then show "a = b" by (simp add: sample_settings_def)
  qed
  then show ?thesis unfolding sample_commits_def by (simp add: distinct_map)
qed

text \<open>C2 at concrete inputs: a repeated commit, a new commit at the tip, a commit after
  an undo (the two entries after the index are dropped), and sixty different commits.\<close>

theorem addToHistory_contract_witness:
  "history_ok (addToHistory DEFAULT_CURVES (fresh_editor DEFAULT_CURVES)) \<and>
   addToHistory DEFAULT_CURVES (addToHistory DEFAULT_CURVES (fresh_editor DEFAULT_CURVES)) =
     addToHistory DEFAULT_CURVES (fresh_editor DEFAULT_CURVES) \<and>
   history (addToHistory (sample_settings 7) (addToHistory DEFAULT_CURVES (fresh_editor DEFAULT_CURVES)))
     = [DEFAULT_CURVES, sample_settings 7] \<and>
   history (addToHistory (sample_settings 9)
             ((fresh_editor DEFAULT_CURVES)\<lparr>history := [DEFAULT_CURVES, sample_settings 7, sample_settings 8],
                                            historyIndex := 0\<rparr>))
     = [DEFAULT_CURVES, sample_settings 9] \<and>
   distinct sample_commits \<and> length sample_commits = 60 \<and>
   history (commits (fresh_editor DEFAULT_CURVES) sample_commits) = drop 10 sample_commits \<and>
   length (history (commits (fresh_editor DEFAULT_CURVES) sample_commits)) = 50"
proof -
  let ?e = "addToHistory DEFAULT_CURVES (fresh_editor DEFAULT_CURVES)"
  have e: "history ?e = [DEFAULT_CURVES]" "historyIndex ?e = 0"
    by (simp_all add: addToHistory_def fresh_editor_def js_index_def js_slice0_def)
  have ok: "history_ok ?e" by (simp add: history_ok_def e)
  have cur: "js_index (history ?e) (historyIndex ?e) = Some DEFAULT_CURVES"
    by (simp add: e js_index_def)
  have ne0: "DEFAULT_CURVES \<noteq> sample_settings 7"
    by (simp add: sample_settings_def DEFAULT_CURVES_def identity_curve_def)
  have ne: "js_index (history ?e) (historyIndex ?e) \<noteq> Some (sample_settings 7)"
    by (simp add: e js_index_def ne0)
  have len: "length sample_commits = 60" by (simp add: sample_commits_def)
  note t1 = addToHistory_contract[OF ok, of DEFAULT_CURVES "[]" sample_commits DEFAULT_CURVES]
  note t2 = addToHistory_contract[OF ok, of "sample_settings 7" "[]" sample_commits DEFAULT_CURVES]
  from t1 cur have r1: "addToHistory DEFAULT_CURVES ?e = ?e" by blast
  from t2 ne have r2: "history (addToHistory (sample_settings 7) ?e) =
              (let pushed = take (nat (historyIndex ?e + 1)) (history ?e) @ [sample_settings 7]
               in if length pushed > 50 then tl pushed else pushed)" by blast
  from t1 sample_commits_distinct len
  have r3: "history (commits (fresh_editor DEFAULT_CURVES) sample_commits) = drop 10 sample_commits"
       "length (history (commits (fresh_editor DEFAULT_CURVES) sample_commits)) = 50"
    by blast+
  from r2 have r2': "history (addToHistory (sample_settings 7) ?e) = [DEFAULT_CURVES, sample_settings 7]"
    by (simp add: e)
  let ?u = "(fresh_editor DEFAULT_CURVES)\<lparr>history := [DEFAULT_CURVES, sample_settings 7, sample_settings 8],
                                            historyIndex := 0\<rparr>"
  have oku: "history_ok ?u" by (simp add: history_ok_def)
  have ne9: "DEFAULT_CURVES \<noteq> sample_settings 9"
    by (simp add: sample_settings_def DEFAULT_CURVES_def identity_curve_def)
  have neu: "js_index (history ?u) (historyIndex ?u) \<noteq> Some (sample_settings 9)"
    by (simp add: js_index_def ne9)
  note t3 = addToHistory_contract[OF oku, of "sample_settings 9" "[]" sample_commits DEFAULT_CURVES]
  from t3 neu have "history (addToHistory (sample_settings 9) ?u) =
              (let pushed = take (nat (historyIndex ?u + 1)) (history ?u) @ [sample_settings 9]
               in if length pushed > 50 then tl pushed else pushed)" by blast
  then have r4: "history (addToHistory (sample_settings 9) ?u) = [DEFAULT_CURVES, sample_settings 9]"
    by simp
  from ok r1 r2' r4 sample_commits_distinct len r3 show ?thesis by blast
qed






section \<open>Editing control points\<close>























section \<open>The retry policy of processBackground\<close>

lemma pb_success:
  "try_generate (ai req (calls w)) = Inr img \<Longrightarrow>
   processBackground ai req r w = (Inr img, w\<lparr>calls := calls w + 1\<rparr>)"
  by (simp add: processBackground.simps[of ai req r w])

lemma pb_surface:
  "try_generate (ai req (calls w)) = Inl m \<Longrightarrow> \<not> rate_limit_signal m \<or> MAX_RETRIES \<le> r \<Longrightarrow>
   processBackground ai req r w =
     (Inl (or_else m ''An unexpected error occurred during AI processing.''), w\<lparr>calls := calls w + 1\<rparr>)"
  by (auto simp add: processBackground.simps[of ai req r w])

lemma pb_retry:
  "rate_limited (ai req (calls w)) \<Longrightarrow> r < MAX_RETRIES \<Longrightarrow>
   processBackground ai req r w =
     processBackground ai req (r + 1)
       (w\<lparr>calls := calls w + 1, sleeps := sleeps w @ [INITIAL_DELAY * 2 ^ r]\<rparr>)"
  by (auto simp add: processBackground.simps[of ai req r w] rate_limited_def Let_def)

lemma pb_retries:
  "r + k \<le> MAX_RETRIES \<Longrightarrow> \<forall>i<k. rate_limited (ai req (calls w + i)) \<Longrightarrow>
   processBackground ai req r w =
     processBackground ai req (r + k)
       (w\<lparr>calls := calls w + k, sleeps := sleeps w @ map (\<lambda>i. INITIAL_DELAY * 2 ^ (r + i)) [0..<k]\<rparr>)"
proof (induction k arbitrary: r w)
  case 0
  then show ?case by simp
next
  case (Suc k)
  let ?w = "w\<lparr>calls := calls w + 1, sleeps := sleeps w @ [INITIAL_DELAY * 2 ^ r]\<rparr>"
  have first: "rate_limited (ai req (calls w))" using Suc.prems(2) by force
  have rest: "\<forall>i<k. rate_limited (ai req (calls ?w + i))"
  proof (intro allI impI)
    fix i assume "i < k"
    then have "Suc i < Suc k" by simp
    then have "rate_limited (ai req (calls w + Suc i))" using Suc.prems(2) by blast
    then show "rate_limited (ai req (calls ?w + i))" by simp
  qed
  have m: "map (\<lambda>i. INITIAL_DELAY * 2 ^ (r + i)) [0..<Suc k] =
           (INITIAL_DELAY * 2 ^ r) # map (\<lambda>i. INITIAL_DELAY * 2 ^ (Suc r + i)) [0..<k]"
    by (simp add: upt_conv_Cons map_Suc_upt[symmetric] del: upt_Suc)
  have "processBackground ai req r w = processBackground ai req (r + 1) ?w"
    using first Suc.prems(1) by (intro pb_retry) simp_all
  also have "\<dots> = processBackground ai req (r + 1 + k)
       (?w\<lparr>calls := calls ?w + k,
            sleeps := sleeps ?w @ map (\<lambda>i. INITIAL_DELAY * 2 ^ (r + 1 + i)) [0..<k]\<rparr>)"
    using Suc.prems(1) rest by (intro Suc.IH) simp_all
  finally show ?case by (simp add: m del: upt_Suc)
qed

lemma backoff_take: "k \<le> 3 \<Longrightarrow> backoff k = take k [2000, 4000, 8000]"
proof -
  assume "k \<le> 3"
  then consider "k = 0" | "k = 1" | "k = 2" | "k = 3" by linarith
  then show ?thesis
    by cases (simp_all add: backoff_def INITIAL_DELAY_def upt_rec)
qed

lemma pb_after_limits:
  assumes "k \<le> 3" and "\<forall>i<k. rate_limited (ai req (calls w + i))"
  shows "processBackground ai req 0 w =
           processBackground ai req k (w\<lparr>calls := calls w + k, sleeps := sleeps w @ backoff k\<rparr>)"
  using pb_retries[of 0 k ai req w] assms by (simp add: MAX_RETRIES_def backoff_def)

text \<open>Whatever the remote model does, a run sends at most four requests and sleeps
  only before a retry, for 2000 * 2^i ms before retry i.\<close>

lemma pb_bounded:
  "r \<le> MAX_RETRIES \<Longrightarrow>
   \<exists>j. r + j \<le> MAX_RETRIES \<and>
       snd (processBackground ai req r w) =
         w\<lparr>calls := calls w + j + 1,
           sleeps := sleeps w @ map (\<lambda>i. INITIAL_DELAY * 2 ^ (r + i)) [0..<j]\<rparr>"
proof (induction ai req r w rule: processBackground.induct)
  case (1 ai req r w)
  show ?case
  proof (cases "try_generate (ai req (calls w))")
    case (Inr img)
    then show ?thesis using "1.prems" by (intro exI[of _ 0]) (simp add: pb_success)
  next
    case (Inl m)
    show ?thesis
    proof (cases "rate_limit_signal m \<and> r < MAX_RETRIES")
      case False
      then have "\<not> rate_limit_signal m \<or> MAX_RETRIES \<le> r" by auto
      then show ?thesis using "1.prems" Inl by (intro exI[of _ 0]) (simp add: pb_surface)
    next
      case True
      let ?w = "w\<lparr>calls := calls w + 1, sleeps := sleeps w @ [INITIAL_DELAY * 2 ^ r]\<rparr>"
      have rl: "rate_limited (ai req (calls w))" using Inl True by (auto simp: rate_limited_def)
      have step: "processBackground ai req r w = processBackground ai req (r + 1) ?w"
        using rl True by (intro pb_retry) simp_all
      have "\<exists>j. r + 1 + j \<le> MAX_RETRIES \<and>
              snd (processBackground ai req (r + 1) ?w) =
                ?w\<lparr>calls := calls ?w + j + 1,
                    sleeps := sleeps ?w @ map (\<lambda>i. INITIAL_DELAY * 2 ^ (r + 1 + i)) [0..<j]\<rparr>"
        using "1.IH"[of "w\<lparr>calls := calls w + 1\<rparr>" m "INITIAL_DELAY * 2 ^ r" ?w] Inl True
        by simp
      then obtain j where j: "r + 1 + j \<le> MAX_RETRIES"
        "snd (processBackground ai req (r + 1) ?w) =
                ?w\<lparr>calls := calls ?w + j + 1,
                    sleeps := sleeps ?w @ map (\<lambda>i. INITIAL_DELAY * 2 ^ (r + 1 + i)) [0..<j]\<rparr>"
        by blast
      have m: "map (\<lambda>i. INITIAL_DELAY * 2 ^ (r + i)) [0..<Suc j] =
           (INITIAL_DELAY * 2 ^ r) # map (\<lambda>i. INITIAL_DELAY * 2 ^ (Suc r + i)) [0..<j]"
        by (simp add: upt_conv_Cons map_Suc_upt[symmetric] del: upt_Suc)
      show ?thesis
        using j step by (intro exI[of _ "Suc j"]) (simp add: m del: upt_Suc)
    qed
  qed
qed

text \<open>
  Claim C3.  In a run of \<^verbatim>\<open>processBackground\<close> (called, as \<^verbatim>\<open>handleProcess\<close> does, without a
  retry count, so from 0) whose first \<open>k \<le> 3\<close> requests are rate-limit failures:
  if the next request yields an image, that image is returned after \<open>k + 1\<close> requests and
  the waits 2000, 4000, 8000 ms cut to the first \<open>k\<close>; if the next request fails without
  the signal, its error is surfaced at once, with no further request or wait; if
  \<open>k = 3\<close> and the fourth request is a rate-limit failure too, its error is surfaced after
  exactly four requests and the three waits.  And in every run whatsoever there are at most
  three retries, the waits being exactly the first of 2000, 4000, 8000 ms.
\<close>

theorem processBackground_retry_policy:
  assumes "k \<le> 3" and "\<forall>i<k. rate_limited (ai req (calls w + i))"
  shows "(try_generate (ai req (calls w + k)) = Inr img \<longrightarrow>
            processBackground ai req 0 w =
              (Inr img, w\<lparr>calls := calls w + k + 1,
                          sleeps := sleeps w @ take k [2000, 4000, 8000]\<rparr>)) \<and>
         (try_generate (ai req (calls w + k)) = Inl m \<and> \<not> rate_limit_signal m \<longrightarrow>
            processBackground ai req 0 w =
              (Inl (or_else m ''An unexpected error occurred during AI processing.''),
               w\<lparr>calls := calls w + k + 1, sleeps := sleeps w @ take k [2000, 4000, 8000]\<rparr>)) \<and>
         (k = 3 \<and> try_generate (ai req (calls w + 3)) = Inl m \<and> rate_limit_signal m \<longrightarrow>
            processBackground ai req 0 w =
              (Inl (or_else m ''An unexpected error occurred during AI processing.''),
               w\<lparr>calls := calls w + 4, sleeps := sleeps w @ [2000, 4000, 8000]\<rparr>)) \<and>
         (\<exists>j\<le>3. snd (processBackground ai' req' 0 w') =
                   w'\<lparr>calls := calls w' + j + 1,
                      sleeps := sleeps w' @ take j [2000, 4000, 8000]\<rparr>)"
proof -
  let ?w = "w\<lparr>calls := calls w + k, sleeps := sleeps w @ backoff k\<rparr>"
  note start = pb_after_limits[of k ai req w, OF assms]
  have a: "try_generate (ai req (calls w + k)) = Inr img \<longrightarrow>
            processBackground ai req 0 w =
              (Inr img, w\<lparr>calls := calls w + k + 1,
                          sleeps := sleeps w @ take k [2000, 4000, 8000]\<rparr>)"
    using pb_success[of ai req ?w img k] assms(1) by (simp add: start backoff_take)
  have b: "try_generate (ai req (calls w + k)) = Inl m \<and> \<not> rate_limit_signal m \<longrightarrow>
            processBackground ai req 0 w =
              (Inl (or_else m ''An unexpected error occurred during AI processing.''),
               w\<lparr>calls := calls w + k + 1, sleeps := sleeps w @ take k [2000, 4000, 8000]\<rparr>)"
    using pb_surface[of ai req ?w m k] assms(1) by (simp add: start backoff_take)
  have c: "k = 3 \<and> try_generate (ai req (calls w + 3)) = Inl m \<and> rate_limit_signal m \<longrightarrow>
            processBackground ai req 0 w =
              (Inl (or_else m ''An unexpected error occurred during AI processing.''),
               w\<lparr>calls := calls w + 4, sleeps := sleeps w @ [2000, 4000, 8000]\<rparr>)"
  proof
    assume h: "k = 3 \<and> try_generate (ai req (calls w + 3)) = Inl m \<and> rate_limit_signal m"
    then have "try_generate (ai req (calls ?w)) = Inl m" by simp
    moreover have "\<not> rate_limit_signal m \<or> MAX_RETRIES \<le> k" using h by (simp add: MAX_RETRIES_def)
    ultimately have "processBackground ai req k ?w =
       (Inl (or_else m ''An unexpected error occurred during AI processing.''), ?w\<lparr>calls := calls ?w + 1\<rparr>)"
      by (rule pb_surface)
    then show "processBackground ai req 0 w =
              (Inl (or_else m ''An unexpected error occurred during AI processing.''),
               w\<lparr>calls := calls w + 4, sleeps := sleeps w @ [2000, 4000, 8000]\<rparr>)"
      using h by (simp add: start backoff_take)
  qed
  obtain j where j: "j \<le> MAX_RETRIES"
     "snd (processBackground ai' req' 0 w') =
         w'\<lparr>calls := calls w' + j + 1,
           sleeps := sleeps w' @ map (\<lambda>i. INITIAL_DELAY * 2 ^ (0 + i)) [0..<j]\<rparr>"
    using pb_bounded[of 0 ai' req' w'] by auto
  have "j \<le> 3" using j(1) by (simp add: MAX_RETRIES_def)
  then have d: "\<exists>j\<le>3. snd (processBackground ai' req' 0 w') =
                   w'\<lparr>calls := calls w' + j + 1,
                      sleeps := sleeps w' @ take j [2000, 4000, 8000]\<rparr>"
    using j(2) backoff_take[of j] by (intro exI[of _ j]) (simp add: backoff_def)
  from a b c d show ?thesis by blast
qed

text \<open>C3 at concrete remote models: three rate-limit failures and then an image; four
  rate-limit failures; one rate-limit failure and then another failure.\<close>

theorem processBackground_retry_policy_witness:
  "processBackground (limited_then_image 3) sample_request 0 new_world =
     (Inr ''data:image/png;base64,QUJD'', \<lparr>calls = 4, sleeps = [2000, 4000, 8000], sheet_inputs = []\<rparr>) \<and>
   processBackground (limited_then_image 4) sample_request 0 new_world =
     (Inl ''429 Too Many Requests'', \<lparr>calls = 4, sleeps = [2000, 4000, 8000], sheet_inputs = []\<rparr>) \<and>
   processBackground (limited_then_down 1) sample_request 0 new_world =
     (Inl ''503 Service Unavailable'', \<lparr>calls = 2, sleeps = [2000], sheet_inputs = []\<rparr>)"
proof -
  have sig: "rate_limit_signal (Some ''429 Too Many Requests'')"
       "\<not> rate_limit_signal (Some ''503 Service Unavailable'')"
    by (simp_all add: rate_limit_signal_def)
  have rl3: "\<forall>i<3. rate_limited (limited_then_image 3 sample_request (calls new_world + i))"
    using sig by (auto simp: rate_limited_def limited_then_image_def try_generate_def new_world_def)
  have rl4: "\<forall>i<3. rate_limited (limited_then_image 4 sample_request (calls new_world + i))"
    using sig by (auto simp: rate_limited_def limited_then_image_def try_generate_def new_world_def)
  have rl1: "\<forall>i<1. rate_limited (limited_then_down 1 sample_request (calls new_world + i))"
    using sig by (auto simp: rate_limited_def limited_then_down_def try_generate_def new_world_def)
  have s3: "try_generate (limited_then_image 3 sample_request (calls new_world + 3)) =
              Inr ''data:image/png;base64,QUJD''"
    by (simp add: limited_then_image_def try_generate_def new_world_def)
  have s4: "try_generate (limited_then_image 4 sample_request (calls new_world + 3)) =
              Inl (Some ''429 Too Many Requests'')"
    by (simp add: limited_then_image_def try_generate_def new_world_def)
  have s1: "try_generate (limited_then_down 1 sample_request (calls new_world + 1)) =
              Inl (Some ''503 Service Unavailable'')"
    by (simp add: limited_then_down_def try_generate_def new_world_def)
  have "(3::nat) \<le> 3" "(1::nat) \<le> 3" by simp_all
  note t3 = processBackground_retry_policy[where k = 3 and ai = "limited_then_image 3"
              and req = sample_request and w = new_world
              and img = "''data:image/png;base64,QUJD''", OF \<open>(3::nat) \<le> 3\<close> rl3]
  note t4 = processBackground_retry_policy[where k = 3 and ai = "limited_then_image 4"
              and req = sample_request and w = new_world
              and m = "Some ''429 Too Many Requests''", OF \<open>(3::nat) \<le> 3\<close> rl4]
  note t1 = processBackground_retry_policy[where k = 1 and ai = "limited_then_down 1"
              and req = sample_request and w = new_world
              and m = "Some ''503 Service Unavailable''", OF \<open>(1::nat) \<le> 3\<close> rl1]
  from t3 s3 have r3: "processBackground (limited_then_image 3) sample_request 0 new_world =
     (Inr ''data:image/png;base64,QUJD'', new_world\<lparr>calls := calls new_world + 3 + 1,
                          sleeps := sleeps new_world @ take 3 [2000, 4000, 8000]\<rparr>)"
    by blast
  from t4 s4 sig have r4: "processBackground (limited_then_image 4) sample_request 0 new_world =
     (Inl (or_else (Some ''429 Too Many Requests'') ''An unexpected error occurred during AI processing.''),
      new_world\<lparr>calls := calls new_world + 4, sleeps := sleeps new_world @ [2000, 4000, 8000]\<rparr>)"
    by blast
  from t1 s1 sig have r1: "processBackground (limited_then_down 1) sample_request 0 new_world =
     (Inl (or_else (Some ''503 Service Unavailable'') ''An unexpected error occurred during AI processing.''),
      new_world\<lparr>calls := calls new_world + 1 + 1, sleeps := sleeps new_world @ take 1 [2000, 4000, 8000]\<rparr>)"
    by blast
  show ?thesis
    unfolding r3 r4 r1 by (simp add: new_world_def or_else_def)
qed


section \<open>The Generate pipeline (handleProcess)\<close>

lemma pb_world:
  "\<exists>j\<le>3. snd (processBackground ai req 0 w) =
            w\<lparr>calls := calls w + j + 1, sleeps := sleeps w @ backoff j\<rparr>"
proof -
  obtain j where j: "j \<le> MAX_RETRIES"
     "snd (processBackground ai req 0 w) =
         w\<lparr>calls := calls w + j + 1,
           sleeps := sleeps w @ map (\<lambda>i. INITIAL_DELAY * 2 ^ (0 + i)) [0..<j]\<rparr>"
    using pb_bounded[of 0 ai req w] by auto
  then show ?thesis by (intro exI[of _ j]) (simp add: MAX_RETRIES_def backoff_def)
qed

lemma pb_calls: "calls w < calls (snd (processBackground ai req 0 w))"
  using pb_world[of ai req w] by auto

lemma pb_sheet_inputs: "sheet_inputs (snd (processBackground ai req 0 w)) = sheet_inputs w"
  using pb_world[of ai req w] by auto

lemma or_else_nonempty: "d \<noteq> [] \<Longrightarrow> or_else m d \<noteq> []"
  by (simp add: or_else_def split: option.splits)

lemma pb_error_nonempty:
  "processBackground ai req r w = (Inl m, w') \<Longrightarrow> m \<noteq> []"
proof (induction ai req r w rule: processBackground.induct)
  case (1 ai req r w)
  show ?case
  proof (cases "try_generate (ai req (calls w))")
    case (Inr img)
    then show ?thesis using "1.prems" by (simp add: pb_success)
  next
    case (Inl msg)
    show ?thesis
    proof (cases "rate_limit_signal msg \<and> r < MAX_RETRIES")
      case False
      then have "\<not> rate_limit_signal msg \<or> MAX_RETRIES \<le> r" by auto
      from pb_surface[of ai req w msg r, OF Inl this] "1.prems" show ?thesis
        using or_else_nonempty[of "''An unexpected error occurred during AI processing.''" msg]
        by auto
    next
      case True
      let ?w = "w\<lparr>calls := calls w + 1, sleeps := sleeps w @ [INITIAL_DELAY * 2 ^ r]\<rparr>"
      have rl: "rate_limited (ai req (calls w))" using Inl True by (auto simp: rate_limited_def)
      have step: "processBackground ai req r w = processBackground ai req (r + 1) ?w"
        using rl True by (intro pb_retry) simp_all
      show ?thesis
        using "1.IH"[of "w\<lparr>calls := calls w + 1\<rparr>" msg "INITIAL_DELAY * 2 ^ r" ?w] Inl True
              "1.prems" step
        by simp
    qed
  qed
qed

text \<open>The pipeline once the AI step has failed: the \<^verbatim>\<open>try\<close> block throws with the state
  untouched.\<close>

lemma generate_try_ai_fails:
  assumes "applyCurves env Generate cropped (curveSettings a) = Inr enhanced"
    and "selectedColor a \<noteq> ORIGINAL \<or> selectedClothing a \<noteq> NONE"
    and "processBackground (generateContent env)
           \<lparr>imageBase64 = enhanced, color = selectedColor a, clothing = selectedClothing a\<rparr> 0 w
         = (Inl message, w')"
  shows "generate_try env cropped a w = (Inl (Some message, a), w')"
  using assms by (auto simp: generate_try_def Let_def)

lemma generate_try_no_ai:
  assumes "applyCurves env Generate cropped (curveSettings a) = Inr enhanced"
    and "selectedColor a = ORIGINAL" "selectedClothing a = NONE"
  shows "generate_try env cropped a w =
          (case generatePassportSheet env Generate enhanced of
             Inl err \<Rightarrow> Inl (err, a\<lparr>processedImage := Some enhanced\<rparr>)
           | Inr s \<Rightarrow> Inr (a\<lparr>processedImage := Some enhanced, finalSheet := Some s, state := PREVIEW\<rparr>),
           w\<lparr>sheet_inputs := sheet_inputs w @ [enhanced]\<rparr>)"
  using assms by (auto simp: generate_try_def make_sheet_def Let_def split: sum.splits)

lemma generate_catch_calls:
  "calls (snd (generate_catch env cropped err a w)) = calls w"
  by (auto simp: generate_catch_def make_sheet_def Let_def split: sum.splits prod.splits)

lemma generate_catch_sleeps:
  "sleeps (snd (generate_catch env cropped err a w)) = sleeps w"
  by (auto simp: generate_catch_def make_sheet_def Let_def split: sum.splits prod.splits)

lemma handleProcess_run:
  assumes "croppedImage a = Some cropped" and "cropped \<noteq> []"
  shows "handleProcess env a w =
           (let a0 = a\<lparr>isProcessing := True, error := None\<rparr>;
                (outcome, w1) = generate_try env cropped a0 w;
                (a2, w2) = (case outcome of
                              Inr a1 \<Rightarrow> (a1, w1)
                            | Inl (err, a1) \<Rightarrow> generate_catch env cropped err a1 w1)
            in (a2\<lparr>isProcessing := False\<rparr>, w2))"
  using assms by (simp add: handleProcess_def)

text \<open>
  Claim C4.  Take a run of \<^verbatim>\<open>handleProcess\<close> on a cropped image in which curve grading
  succeeds, the AI compositor is needed, and \<^verbatim>\<open>processBackground\<close> ends in an error (so after
  its retries).  If re-grading the cropped image and composing the sheet from the re-graded
  photo both succeed, that sheet and photo are stored, the sheet compositor was given the
  re-graded photo and nothing else, the state is PREVIEW and the message is
  "AI enhancement failed: ...".  If the re-grading or the sheet composition fails, the
  sheet, the photo and the state stay as they were and the message is
  "Total failure: ...".  In both cases \<^verbatim>\<open>isProcessing\<close> is reset.
\<close>

theorem handleProcess_fallback:
  assumes "croppedImage a = Some cropped" and "cropped \<noteq> []"
    and "applyCurves env Generate cropped (curveSettings a) = Inr enhanced"
    and "selectedColor a \<noteq> ORIGINAL \<or> selectedClothing a \<noteq> NONE"
    and "processBackground (generateContent env)
           \<lparr>imageBase64 = enhanced, color = selectedColor a, clothing = selectedClothing a\<rparr> 0 w
         = (Inl message, w')"
  shows "(applyCurves env Fallback cropped (curveSettings a) = Inr fallbackPhoto \<and>
          generatePassportSheet env Fallback fallbackPhoto = Inr sheet \<longrightarrow>
            handleProcess env a w =
              (a\<lparr>isProcessing := False,
                 error := Some (''AI enhancement failed: '' @ message @ ''. Colored photo used.''),
                 finalSheet := Some sheet, processedImage := Some fallbackPhoto, state := PREVIEW\<rparr>,
               w'\<lparr>sheet_inputs := sheet_inputs w @ [fallbackPhoto]\<rparr>) \<and>
            error_begins ''AI enhancement failed'' (fst (handleProcess env a w))) \<and>
         ((\<exists>e. applyCurves env Fallback cropped (curveSettings a) = Inl e) \<or>
          (applyCurves env Fallback cropped (curveSettings a) = Inr fallbackPhoto \<and>
           (\<exists>e. generatePassportSheet env Fallback fallbackPhoto = Inl e)) \<longrightarrow>
            fst (handleProcess env a w) =
              a\<lparr>isProcessing := False, error := Some (''Total failure: '' @ message)\<rparr> \<and>
            finalSheet (fst (handleProcess env a w)) = finalSheet a \<and>
            state (fst (handleProcess env a w)) = state a \<and>
            error_begins ''Total failure'' (fst (handleProcess env a w)))"
proof -
  let ?a0 = "a\<lparr>isProcessing := True, error := None\<rparr>"
  have ne: "or_else (Some message) ''Unknown error'' = message"
    using pb_error_nonempty[OF assms(5)] by (simp add: or_else_def)
  have si: "sheet_inputs w' = sheet_inputs w"
    using pb_sheet_inputs[of "generateContent env"
            "\<lparr>imageBase64 = enhanced, color = selectedColor a, clothing = selectedClothing a\<rparr>" w]
          assms(5) by simp
  have t: "generate_try env cropped ?a0 w = (Inl (Some message, ?a0), w')"
    using assms(3,4,5) by (intro generate_try_ai_fails[where enhanced = enhanced]) simp_all
  have run: "handleProcess env a w =
               (let (a2, w2) = generate_catch env cropped (Some message) ?a0 w'
                in (a2\<lparr>isProcessing := False\<rparr>, w2))"
    by (simp add: handleProcess_run[OF assms(1,2)] t)
  have ok: "applyCurves env Fallback cropped (curveSettings a) = Inr fallbackPhoto \<and>
          generatePassportSheet env Fallback fallbackPhoto = Inr sheet \<longrightarrow>
            handleProcess env a w =
              (a\<lparr>isProcessing := False,
                 error := Some (''AI enhancement failed: '' @ message @ ''. Colored photo used.''),
                 finalSheet := Some sheet, processedImage := Some fallbackPhoto, state := PREVIEW\<rparr>,
               w'\<lparr>sheet_inputs := sheet_inputs w @ [fallbackPhoto]\<rparr>) \<and>
            error_begins ''AI enhancement failed'' (fst (handleProcess env a w))"
    by (auto simp: run generate_catch_def make_sheet_def ne si error_begins_def)
  have bad: "(\<exists>e. applyCurves env Fallback cropped (curveSettings a) = Inl e) \<or>
          (applyCurves env Fallback cropped (curveSettings a) = Inr fallbackPhoto \<and>
           (\<exists>e. generatePassportSheet env Fallback fallbackPhoto = Inl e)) \<longrightarrow>
            fst (handleProcess env a w) =
              a\<lparr>isProcessing := False, error := Some (''Total failure: '' @ message)\<rparr> \<and>
            finalSheet (fst (handleProcess env a w)) = finalSheet a \<and>
            state (fst (handleProcess env a w)) = state a \<and>
            error_begins ''Total failure'' (fst (handleProcess env a w))"
    by (auto simp: run generate_catch_def make_sheet_def ne error_begins_def)
  from ok bad show ?thesis by blast
qed

text \<open>C4 with a remote model that is rate-limited four times in a row: once with a
  working canvas library, once with one that cannot compose the sheet.\<close>

theorem handleProcess_fallback_witness:
  "handleProcess (sample_env (limited_then_image 4)) (sample_app WHITE NONE) new_world =
     ((sample_app WHITE NONE)
        \<lparr>error := Some ''AI enhancement failed: 429 Too Many Requests. Colored photo used.'',
         finalSheet := Some ''sheet:graded:crop'', processedImage := Some ''graded:crop'',
         state := PREVIEW\<rparr>,
      \<lparr>calls = 4, sleeps = [2000, 4000, 8000], sheet_inputs = [''graded:crop'']\<rparr>) \<and>
   fst (handleProcess (broken_sheet_env (limited_then_image 4)) (sample_app WHITE NONE) new_world) =
     (sample_app WHITE NONE)\<lparr>error := Some ''Total failure: 429 Too Many Requests''\<rparr>"
proof -
  let ?a = "sample_app WHITE NONE"
  let ?req = "\<lparr>imageBase64 = ''graded:crop'', color = selectedColor ?a, clothing = selectedClothing ?a\<rparr>"
  have sig: "rate_limit_signal (Some ''429 Too Many Requests'')"
    by (simp add: rate_limit_signal_def)
  have rl4: "\<forall>i<3. rate_limited (limited_then_image 4 ?req (calls new_world + i))"
    using sig by (auto simp: rate_limited_def limited_then_image_def try_generate_def new_world_def)
  have s4: "try_generate (limited_then_image 4 ?req (calls (new_world\<lparr>calls := calls new_world + 3,
                 sleeps := sleeps new_world @ backoff 3\<rparr>))) = Inl (Some ''429 Too Many Requests'')"
    by (simp add: limited_then_image_def try_generate_def new_world_def)
  let ?w3 = "new_world\<lparr>calls := calls new_world + 3, sleeps := sleeps new_world @ backoff 3\<rparr>"
  have st: "processBackground (limited_then_image 4) ?req 0 new_world =
            processBackground (limited_then_image 4) ?req 3 ?w3"
    using rl4 by (intro pb_after_limits) simp_all
  have "processBackground (limited_then_image 4) ?req 3 ?w3 =
          (Inl (or_else (Some ''429 Too Many Requests'')
                  ''An unexpected error occurred during AI processing.''),
           ?w3\<lparr>calls := calls ?w3 + 1\<rparr>)"
    using s4 by (rule pb_surface) (simp add: MAX_RETRIES_def)
  then have pb: "processBackground (limited_then_image 4) ?req 0 new_world =
          (Inl ''429 Too Many Requests'', \<lparr>calls = 4, sleeps = [2000, 4000, 8000], sheet_inputs = []\<rparr>)"
    unfolding st by (simp add: or_else_def new_world_def backoff_take)
  have c: "croppedImage ?a = Some ''crop''" "''crop'' \<noteq> []"
          "selectedColor ?a \<noteq> ORIGINAL \<or> selectedClothing ?a \<noteq> NONE"
    by (simp_all add: sample_app_def)
  have g1: "applyCurves (sample_env (limited_then_image 4)) Generate ''crop'' (curveSettings ?a)
              = Inr ''graded:crop''"
    and g2: "applyCurves (broken_sheet_env (limited_then_image 4)) Generate ''crop'' (curveSettings ?a)
              = Inr ''graded:crop''"
    by (simp_all add: sample_env_def broken_sheet_env_def)
  have p1: "processBackground (generateContent (sample_env (limited_then_image 4))) ?req 0 new_world =
          (Inl ''429 Too Many Requests'', \<lparr>calls = 4, sleeps = [2000, 4000, 8000], sheet_inputs = []\<rparr>)"
    and p2: "processBackground (generateContent (broken_sheet_env (limited_then_image 4))) ?req 0 new_world =
          (Inl ''429 Too Many Requests'', \<lparr>calls = 4, sleeps = [2000, 4000, 8000], sheet_inputs = []\<rparr>)"
    using pb by (simp_all add: sample_env_def broken_sheet_env_def)
  note t1 = handleProcess_fallback[OF c(1,2) g1 c(3) p1, of "''graded:crop''" "''sheet:graded:crop''"]
  note t2 = handleProcess_fallback[OF c(1,2) g2 c(3) p2, of "''graded:crop''" "''sheet:graded:crop''"]
  have f1: "applyCurves (sample_env (limited_then_image 4)) Fallback ''crop'' (curveSettings ?a)
              = Inr ''graded:crop'' \<and>
            generatePassportSheet (sample_env (limited_then_image 4)) Fallback ''graded:crop''
              = Inr ''sheet:graded:crop''"
    by (simp add: sample_env_def)
  have f2: "applyCurves (broken_sheet_env (limited_then_image 4)) Fallback ''crop'' (curveSettings ?a)
              = Inr ''graded:crop'' \<and>
            (\<exists>e. generatePassportSheet (broken_sheet_env (limited_then_image 4)) Fallback ''graded:crop''
              = Inl e)"
    by (simp add: broken_sheet_env_def)
  from t1 f1 have r1: "handleProcess (sample_env (limited_then_image 4)) ?a new_world =
              (?a\<lparr>isProcessing := False,
                 error := Some (''AI enhancement failed: '' @ ''429 Too Many Requests'' @ ''. Colored photo used.''),
                 finalSheet := Some ''sheet:graded:crop'', processedImage := Some ''graded:crop'', state := PREVIEW\<rparr>,
               \<lparr>calls = 4, sleeps = [2000, 4000, 8000], sheet_inputs = []\<rparr>
                 \<lparr>sheet_inputs := sheet_inputs new_world @ [''graded:crop'']\<rparr>)"
    by blast
  from t2 f2 have r2: "fst (handleProcess (broken_sheet_env (limited_then_image 4)) ?a new_world) =
              ?a\<lparr>isProcessing := False, error := Some (''Total failure: '' @ ''429 Too Many Requests'')\<rparr>"
    by blast
  show ?thesis unfolding r1 r2 by (simp add: sample_app_def new_world_def)
qed

lemma handleProcess_no_image:
  "croppedImage a = None \<or> croppedImage a = Some [] \<Longrightarrow> handleProcess env a w = (a, w)"
  by (auto simp: handleProcess_def)

lemma generate_try_grading_fails:
  "applyCurves env Generate cropped (curveSettings a) = Inl err \<Longrightarrow>
   generate_try env cropped a w = (Inl (err, a), w)"
  by (simp add: generate_try_def)

lemma generate_catch_sheet_inputs:
  "\<forall>p\<in>set (drop (length (sheet_inputs w)) (sheet_inputs (snd (generate_catch env cropped err a w)))).
      applyCurves env Fallback cropped (curveSettings a) = Inr p"
  by (auto simp: generate_catch_def make_sheet_def Let_def split: sum.splits)

text \<open>A run that does not need the AI compositor: what the world looks like afterwards.\<close>

lemma handleProcess_no_ai_world:
  assumes un: "selectedColor a = ORIGINAL" "selectedClothing a = NONE"
  shows "calls (snd (handleProcess env a w)) = calls w \<and>
         sleeps (snd (handleProcess env a w)) = sleeps w \<and>
         (\<forall>cropped. croppedImage a = Some cropped \<longrightarrow>
            (\<forall>p\<in>set (drop (length (sheet_inputs w)) (sheet_inputs (snd (handleProcess env a w)))).
               \<exists>site. applyCurves env site cropped (curveSettings a) = Inr p))"
proof (cases "croppedImage a = None \<or> croppedImage a = Some []")
  case True
  then have "handleProcess env a w = (a, w)" by (rule handleProcess_no_image)
  then show ?thesis by simp
next
  case False
  then obtain cropped where c: "croppedImage a = Some cropped" "cropped \<noteq> []" by auto
  let ?a0 = "a\<lparr>isProcessing := True, error := None\<rparr>"
  have un0: "selectedColor ?a0 = ORIGINAL" "selectedClothing ?a0 = NONE" using un by simp_all
  show ?thesis
  proof (cases "applyCurves env Generate cropped (curveSettings a)")
    case (Inl err)
    then have t: "generate_try env cropped ?a0 w = (Inl (err, ?a0), w)"
      by (intro generate_try_grading_fails) simp
    have run: "snd (handleProcess env a w) = snd (generate_catch env cropped err ?a0 w)"
      by (simp add: handleProcess_run[OF c] t split: prod.splits)
    show ?thesis
      unfolding run
      using generate_catch_calls[of env cropped err ?a0 w]
            generate_catch_sleeps[of env cropped err ?a0 w]
            generate_catch_sheet_inputs[of w env cropped err ?a0] c
      by auto
  next
    case (Inr enhanced)
    then have g: "applyCurves env Generate cropped (curveSettings ?a0) = Inr enhanced" by simp
    note t = generate_try_no_ai[OF g un0, of w]
    let ?w1 = "w\<lparr>sheet_inputs := sheet_inputs w @ [enhanced]\<rparr>"
    show ?thesis
    proof (cases "generatePassportSheet env Generate enhanced")
      case s: (Inr sheet)
      then have "snd (handleProcess env a w) = ?w1"
        by (simp add: handleProcess_run[OF c] t)
      then show ?thesis using c Inr by auto
    next
      case e: (Inl err)
      let ?a1 = "?a0\<lparr>processedImage := Some enhanced\<rparr>"
      have run: "snd (handleProcess env a w) = snd (generate_catch env cropped err ?a1 ?w1)"
        by (simp add: handleProcess_run[OF c] t e split: prod.splits)
      have si: "sheet_inputs (snd (generate_catch env cropped err ?a1 ?w1)) =
                  sheet_inputs w @ enhanced #
                    drop (length (sheet_inputs ?w1)) (sheet_inputs (snd (generate_catch env cropped err ?a1 ?w1)))"
        by (auto simp: generate_catch_def make_sheet_def Let_def split: sum.splits)
      have fb: "\<forall>p\<in>set (drop (length (sheet_inputs ?w1))
                          (sheet_inputs (snd (generate_catch env cropped err ?a1 ?w1)))).
                  applyCurves env Fallback cropped (curveSettings a) = Inr p"
        using generate_catch_sheet_inputs[of ?w1 env cropped err ?a1] by simp
      have "\<forall>p\<in>set (drop (length (sheet_inputs w))
                          (sheet_inputs (snd (generate_catch env cropped err ?a1 ?w1)))).
                  \<exists>site. applyCurves env site cropped (curveSettings a) = Inr p"
      proof
        fix p
        assume "p \<in> set (drop (length (sheet_inputs w))
                          (sheet_inputs (snd (generate_catch env cropped err ?a1 ?w1))))"
        then have "p \<in> set (enhanced # drop (length (sheet_inputs ?w1))
                          (sheet_inputs (snd (generate_catch env cropped err ?a1 ?w1))))"
          by (subst (asm) si) simp
        then show "\<exists>site. applyCurves env site cropped (curveSettings a) = Inr p"
          using fb Inr by auto
      qed
      then show ?thesis
        unfolding run
        using generate_catch_calls[of env cropped err ?a1 ?w1]
              generate_catch_sleeps[of env cropped err ?a1 ?w1] c
        by auto
    qed
  qed
qed

lemma handleProcess_ai_called:
  assumes "croppedImage a = Some cropped" and "cropped \<noteq> []"
    and "applyCurves env Generate cropped (curveSettings a) = Inr enhanced"
    and "selectedColor a \<noteq> ORIGINAL \<or> selectedClothing a \<noteq> NONE"
  shows "calls w < calls (snd (handleProcess env a w))"
proof -
  let ?a0 = "a\<lparr>isProcessing := True, error := None\<rparr>"
  let ?req = "\<lparr>imageBase64 = enhanced, color = selectedColor a, clothing = selectedClothing a\<rparr>"
  let ?pb = "processBackground (generateContent env) ?req 0 w"
  have lt: "calls w < calls (snd ?pb)" by (rule pb_calls)
  have "calls (snd (generate_try env cropped ?a0 w)) = calls (snd ?pb)"
    using assms(3,4)
    by (auto simp: generate_try_def make_sheet_def Let_def split: sum.splits prod.splits)
  moreover have "calls (snd (handleProcess env a w)) = calls (snd (generate_try env cropped ?a0 w))"
    by (auto simp: handleProcess_run[OF assms(1,2)] Let_def generate_catch_calls
             split: sum.splits prod.splits)
        (metis generate_catch_calls snd_conv)
  ultimately show ?thesis using lt by simp
qed

lemma handleProcess_no_ai_success:
  assumes "croppedImage a = Some cropped" and "cropped \<noteq> []"
    and "applyCurves env Generate cropped (curveSettings a) = Inr enhanced"
    and "selectedColor a = ORIGINAL" and "selectedClothing a = NONE"
    and "generatePassportSheet env Generate enhanced = Inr sheet"
  shows "handleProcess env a w =
           (a\<lparr>isProcessing := False, error := None, processedImage := Some enhanced,
              finalSheet := Some sheet, state := PREVIEW\<rparr>,
            w\<lparr>sheet_inputs := sheet_inputs w @ [enhanced]\<rparr>)"
proof -
  let ?a0 = "a\<lparr>isProcessing := True, error := None\<rparr>"
  have un0: "selectedColor ?a0 = ORIGINAL" "selectedClothing ?a0 = NONE" using assms(4,5) by simp_all
  have g: "applyCurves env Generate cropped (curveSettings ?a0) = Inr enhanced"
    using assms(3) by simp
  show ?thesis
    by (simp add: handleProcess_run[OF assms(1,2)] generate_try_no_ai[OF g un0, of w] assms(6))
qed

text \<open>
  Claim C10.  A run of \<^verbatim>\<open>handleProcess\<close> sends a request to the AI compositor only if the
  background is not ORIGINAL ("Don't Change") or the clothing is not NONE, and it does
  send one whenever that holds and the run gets there (there is a cropped image and its
  curve grading succeeds).  When both selectors are unchanged, no request is sent and
  nothing is slept; every photo given to the sheet compositor is a curve-graded cropped
  image; and when the grading and the sheet composition succeed, the graded image is the
  one photo given to the sheet compositor, it becomes the processed photo, its sheet the
  final sheet, and no error is shown.
\<close>

theorem handleProcess_needsAI:
  "(calls w < calls (snd (handleProcess env a w)) \<longrightarrow>
      selectedColor a \<noteq> ORIGINAL \<or> selectedClothing a \<noteq> NONE) \<and>
   (croppedImage a = Some cropped \<and> cropped \<noteq> [] \<and>
    applyCurves env Generate cropped (curveSettings a) = Inr enhanced \<and>
    (selectedColor a \<noteq> ORIGINAL \<or> selectedClothing a \<noteq> NONE) \<longrightarrow>
      calls w < calls (snd (handleProcess env a w))) \<and>
   (selectedColor a = ORIGINAL \<and> selectedClothing a = NONE \<longrightarrow>
      calls (snd (handleProcess env a w)) = calls w \<and>
      sleeps (snd (handleProcess env a w)) = sleeps w \<and>
      (croppedImage a = Some cropped \<longrightarrow>
         (\<forall>p\<in>set (drop (length (sheet_inputs w)) (sheet_inputs (snd (handleProcess env a w)))).
            \<exists>site. applyCurves env site cropped (curveSettings a) = Inr p)) \<and>
      (croppedImage a = Some cropped \<and> cropped \<noteq> [] \<and>
       applyCurves env Generate cropped (curveSettings a) = Inr enhanced \<and>
       generatePassportSheet env Generate enhanced = Inr sheet \<longrightarrow>
         handleProcess env a w =
           (a\<lparr>isProcessing := False, error := None, processedImage := Some enhanced,
              finalSheet := Some sheet, state := PREVIEW\<rparr>,
            w\<lparr>sheet_inputs := sheet_inputs w @ [enhanced]\<rparr>)))"
proof -
  have a: "calls w < calls (snd (handleProcess env a w)) \<longrightarrow>
            selectedColor a \<noteq> ORIGINAL \<or> selectedClothing a \<noteq> NONE"
    using handleProcess_no_ai_world[of a env w] by auto
  have b: "croppedImage a = Some cropped \<and> cropped \<noteq> [] \<and>
    applyCurves env Generate cropped (curveSettings a) = Inr enhanced \<and>
    (selectedColor a \<noteq> ORIGINAL \<or> selectedClothing a \<noteq> NONE) \<longrightarrow>
      calls w < calls (snd (handleProcess env a w))"
    using handleProcess_ai_called[of a cropped env enhanced w] by blast
  have c: "selectedColor a = ORIGINAL \<and> selectedClothing a = NONE \<longrightarrow>
      calls (snd (handleProcess env a w)) = calls w \<and>
      sleeps (snd (handleProcess env a w)) = sleeps w \<and>
      (croppedImage a = Some cropped \<longrightarrow>
         (\<forall>p\<in>set (drop (length (sheet_inputs w)) (sheet_inputs (snd (handleProcess env a w)))).
            \<exists>site. applyCurves env site cropped (curveSettings a) = Inr p)) \<and>
      (croppedImage a = Some cropped \<and> cropped \<noteq> [] \<and>
       applyCurves env Generate cropped (curveSettings a) = Inr enhanced \<and>
       generatePassportSheet env Generate enhanced = Inr sheet \<longrightarrow>
         handleProcess env a w =
           (a\<lparr>isProcessing := False, error := None, processedImage := Some enhanced,
              finalSheet := Some sheet, state := PREVIEW\<rparr>,
            w\<lparr>sheet_inputs := sheet_inputs w @ [enhanced]\<rparr>))"
    using handleProcess_no_ai_world[of a env w]
          handleProcess_no_ai_success[of a cropped env enhanced sheet w]
    by blast
  from a b c show ?thesis by blast
qed

text \<open>C10 on a run with both selectors unchanged and on a run that asks for a white
  background.\<close>

theorem handleProcess_needsAI_witness:
  "handleProcess (sample_env (limited_then_image 0)) (sample_app ORIGINAL NONE) new_world =
     ((sample_app ORIGINAL NONE)
        \<lparr>processedImage := Some ''graded:crop'', finalSheet := Some ''sheet:graded:crop'',
         state := PREVIEW\<rparr>,
      \<lparr>calls = 0, sleeps = [], sheet_inputs = [''graded:crop'']\<rparr>) \<and>
   calls new_world < calls (snd (handleProcess (sample_env (limited_then_image 0))
                                   (sample_app WHITE NONE) new_world))"
proof -
  have c: "croppedImage (sample_app k cl) = Some ''crop''" "''crop'' \<noteq> []" for k cl
    by (simp_all add: sample_app_def)
  have g: "applyCurves (sample_env (limited_then_image 0)) Generate ''crop''
             (curveSettings (sample_app k cl)) = Inr ''graded:crop''" for k cl
    by (simp add: sample_env_def)
  note t1 = handleProcess_needsAI[of new_world "sample_env (limited_then_image 0)"
              "sample_app ORIGINAL NONE" "''crop''" "''graded:crop''" "''sheet:graded:crop''"]
  note t2 = handleProcess_needsAI[of new_world "sample_env (limited_then_image 0)"
              "sample_app WHITE NONE" "''crop''" "''graded:crop''" "''sheet:graded:crop''"]
  have s: "generatePassportSheet (sample_env (limited_then_image 0)) Generate ''graded:crop''
             = Inr ''sheet:graded:crop''"
    by (simp add: sample_env_def)
  have u: "selectedColor (sample_app ORIGINAL NONE) = ORIGINAL \<and>
           selectedClothing (sample_app ORIGINAL NONE) = NONE"
    by (simp add: sample_app_def)
  have v: "selectedColor (sample_app WHITE NONE) \<noteq> ORIGINAL \<or>
           selectedClothing (sample_app WHITE NONE) \<noteq> NONE"
    by (simp add: sample_app_def)
  from t1 s u c g have r1: "handleProcess (sample_env (limited_then_image 0)) (sample_app ORIGINAL NONE) new_world =
                 ((sample_app ORIGINAL NONE)\<lparr>isProcessing := False, error := None,
                    processedImage := Some ''graded:crop'',
                    finalSheet := Some ''sheet:graded:crop'', state := PREVIEW\<rparr>,
                  new_world\<lparr>sheet_inputs := sheet_inputs new_world @ [''graded:crop'']\<rparr>)"
    by blast
  from t2 v c g have r2: "calls new_world < calls (snd (handleProcess (sample_env (limited_then_image 0))
                                   (sample_app WHITE NONE) new_world))"
    by blast
  show ?thesis using r2 unfolding r1 by (simp add: sample_app_def new_world_def)
qed

section \<open>The debounced live preview\<close>














section \<open>The cropper: crop extraction, auto-framing and the rotation field\<close>

lemma crop_box_size: "CROP_BOX_WIDTH = 980 / 3" "CROP_BOX_HEIGHT = 420"
  by (simp_all add: CROP_BOX_WIDTH_def CROP_BOX_HEIGHT_def ASPECT_RATIO_def)




text \<open>
  Claim C8.  For a loaded image (positive natural width and height) \<^verbatim>\<open>setupAutoCrop\<close> sets
  the zoom to \<open>min (max widthZoom heightZoom) 4\<close>, where \<open>widthZoom\<close> is the crop-box width
  over the natural width times 2.8 and \<open>heightZoom\<close> the crop-box height over the natural
  height times 1.5; it sets the horizontal pan to 0 and the vertical pan to minus 18% of
  the rendered height \<open>naturalHeight * zoom\<close>.  The zoom is positive and at most 4, the
  vertical pan negative (upwards), and the rotation is untouched.
\<close>

theorem setupAutoCrop_initial_frame:
  assumes "0 < naturalWidth img" and "0 < naturalHeight img"
  shows "zoom (setupAutoCrop img c) =
           min (max ((CROP_BOX_WIDTH / naturalWidth img) * 2.8)
                    ((CROP_BOX_HEIGHT / naturalHeight img) * 1.5)) 4.0 \<and>
         fst (position (setupAutoCrop img c)) = 0 \<and>
         snd (position (setupAutoCrop img c)) =
           - (naturalHeight img * zoom (setupAutoCrop img c) * 0.18) \<and>
         0 < zoom (setupAutoCrop img c) \<and> zoom (setupAutoCrop img c) \<le> 4 \<and>
         snd (position (setupAutoCrop img c)) < 0 \<and>
         rotation (setupAutoCrop img c) = rotation c \<and>
         autoCropEffect (Some img) (Some cont) c = setupAutoCrop img c"
proof -
  let ?wz = "(CROP_BOX_WIDTH / naturalWidth img) * 2.8"
  let ?hz = "(CROP_BOX_HEIGHT / naturalHeight img) * 1.5"
  let ?z = "min (max ?wz ?hz) 4.0"
  have z: "zoom (setupAutoCrop img c) = ?z"
    and p: "position (setupAutoCrop img c) = (0, - (naturalHeight img * ?z * 0.18))"
    and r: "rotation (setupAutoCrop img c) = rotation c"
    by (simp_all add: setupAutoCrop_def Let_def)
  have "0 < ?wz" using assms(1) by (simp add: crop_box_size)
  then have "0 < max ?wz ?hz" by (simp add: less_max_iff_disj)
  then have pos: "0 < ?z" by simp
  have le: "?z \<le> 4" by simp
  have "0 < naturalHeight img * ?z * 0.18"
    using assms(2) pos by (intro mult_pos_pos) simp_all
  then have neg: "- (naturalHeight img * ?z * 0.18) < 0" by simp
  have e: "autoCropEffect (Some img) (Some cont) c = setupAutoCrop img c"
    by (simp add: autoCropEffect_def)
  show ?thesis
    unfolding z p r using pos le neg e z by simp
qed

text \<open>C8 for a portrait photo of 1000 by 1500 pixels: the zoom is 343/375 (91.5%) and
  the image is shifted up by 246.96 pixels.\<close>

theorem setupAutoCrop_initial_frame_witness:
  "zoom (setupAutoCrop \<lparr>naturalWidth = 1000, naturalHeight = 1500\<rparr> initial_cropper) = 343 / 375 \<and>
   position (setupAutoCrop \<lparr>naturalWidth = 1000, naturalHeight = 1500\<rparr> initial_cropper)
     = (0, - (6174 / 25))"
proof -
  let ?img = "\<lparr>naturalWidth = 1000, naturalHeight = 1500\<rparr>"
  have d: "0 < naturalWidth ?img" "0 < naturalHeight ?img" by simp_all
  note t = setupAutoCrop_initial_frame[OF d, of initial_cropper "\<lparr>clientWidth = 800, clientHeight = 520\<rparr>"]
  from t have z: "zoom (setupAutoCrop ?img initial_cropper) = 343 / 375"
    by (simp add: crop_box_size)
  from t have "fst (position (setupAutoCrop ?img initial_cropper)) = 0"
    and "snd (position (setupAutoCrop ?img initial_cropper)) = - (6174 / 25)"
    unfolding z by simp_all
  then have "position (setupAutoCrop ?img initial_cropper) = (0, - (6174 / 25))"
    by (simp add: prod_eq_iff)
  with z show ?thesis by simp
qed





end
